theory Spec2Isabelle
  imports Main "HOL-Library.AList" "HOL-Library.Multiset"
begin

section \<open>Result layer of the topic-modelling toolkit (topik/models/base\_model\_output.py)\<close>

text \<open>
  The module defines \<^verbatim>\<open>TopicModelResultBase\<close> and the function \<^verbatim>\<open>load_model\<close>.
  Python exceptions are values of the type \<open>error\<close>; a function that can raise returns
  \<open>error + 'a\<close> with \<open>Inl\<close> for the exception.
\<close>

datatype error =
    NameError string
  | KeyError
  | ValueError
  | IndexError
  | NotImplementedError
  | External string

subsection \<open>The names the module binds\<close>

text \<open>
  The top-level statements of the module bind these global names and no others: the
  imports (\<^verbatim>\<open>ABCMeta\<close>, \<^verbatim>\<open>abstractmethod\<close>, \<^verbatim>\<open>abstractproperty\<close>, \<^verbatim>\<open>Counter\<close>, \<^verbatim>\<open>pd\<close>,
  \<^verbatim>\<open>with_metaclass\<close>, \<^verbatim>\<open>read_input\<close>, \<^verbatim>\<open>test_data_path\<close>), the class and the function.
  Reading any other global name raises \<^verbatim>\<open>NameError\<close> at the moment the read is executed.
  Two function bodies read such names: \<^verbatim>\<open>get_top_words\<close> reads \<^verbatim>\<open>np\<close> and \<^verbatim>\<open>load_model\<close>
  reads \<^verbatim>\<open>Persistor\<close>.
\<close>

definition module_globals :: "string list" where
  "module_globals =
     [''ABCMeta'', ''abstractmethod'', ''abstractproperty'', ''Counter'', ''pd'',
      ''with_metaclass'', ''read_input'', ''test_data_path'', ''TopicModelResultBase'',
      ''load_model'']"

text \<open>The exception of a read of an unbound name: \<^verbatim>\<open>name 'np' is not defined\<close>.\<close>

definition unbound_name_error :: "string \<Rightarrow> error" where
  "unbound_name_error name =
     NameError (''name '' @ [CHR 0x27] @ name @ [CHR 0x27] @ '' is not defined'')"

subsection \<open>Corpus scans: document lengths and term frequencies\<close>

text \<open>
  A \<^verbatim>\<open>pd.Series\<close> is kept as the list of its (index label, value) pairs, in order;
  labels may repeat, as they may in pandas.
\<close>

type_synonym ('k, 'v) series = "('k \<times> 'v) list"

text \<open>
  \<^verbatim>\<open>a, b = zip(*pairs)\<close>: \<^verbatim>\<open>zip(*pairs)\<close> over a list of 2-tuples yields two tuples when the
  list is not empty and nothing when it is empty; unpacking nothing into two names raises
  \<^verbatim>\<open>ValueError\<close>.
\<close>

definition unpack_zip_star :: "('a \<times> 'b) list \<Rightarrow> error + ('a list \<times> 'b list)" where
  "unpack_zip_star pairs =
     (if pairs = [] then Inl ValueError else Inr (map fst pairs, map snd pairs))"

text \<open>
  \<^verbatim>\<open>_get_doc_lengths\<close> reads \<^verbatim>\<open>self._corpus._corpus\<close>, the collection underneath the
  digested one: a sequence of (id, doc) pairs in which \<^verbatim>\<open>doc\<close> is the document's token
  sequence, before it is digested into (term-id, count) pairs. It records \<^verbatim>\<open>len(doc)\<close>.
\<close>

definition get_doc_lengths :: "('id \<times> 'e list) list \<Rightarrow> error + ('id, nat) series" where
  "get_doc_lengths inner_corpus =
     (case unpack_zip_star (map (\<lambda>(id, doc). (id, length doc)) inner_corpus) of
        Inl e \<Rightarrow> Inl e
      | Inr (id_index, doc_lengths) \<Rightarrow> Inr (zip id_index doc_lengths))"

text \<open>
  \<^verbatim>\<open>dict(doc)\<close> on a sequence of (key, value) pairs: a later pair with the same key
  overwrites the value and keeps the key's first position.
\<close>

definition py_dict :: "('k \<times> 'v) list \<Rightarrow> ('k \<times> 'v) list" where
  "py_dict pairs = fold (\<lambda>(k, v). AList.update k v) pairs []"

text \<open>\<^verbatim>\<open>Counter.update(mapping)\<close>: \<^verbatim>\<open>self[elem] = count + self.get(elem, 0)\<close> for every item.\<close>

definition counter_get :: "('k \<times> int) list \<Rightarrow> 'k \<Rightarrow> int" where
  "counter_get tf k = (case map_of tf k of None \<Rightarrow> 0 | Some c \<Rightarrow> c)"

definition counter_update :: "('k \<times> int) list \<Rightarrow> ('k \<times> int) list \<Rightarrow> ('k \<times> int) list" where
  "counter_update tf mapping =
     fold (\<lambda>(elem, count) acc. AList.update elem (count + counter_get acc elem) acc) mapping tf"

text \<open>
  \<^verbatim>\<open>_get_term_frequency\<close> iterates \<^verbatim>\<open>self._corpus\<close>; each \<^verbatim>\<open>doc\<close> is a sequence of
  (term-id, count) pairs. The final \<^verbatim>\<open>dict(tf)\<close> copies the counter, and the series takes
  the copy's keys as its index.
\<close>

definition get_term_frequency :: "('k \<times> int) list list \<Rightarrow> ('k, int) series" where
  "get_term_frequency corpus =
     fold (\<lambda>doc tf. counter_update tf (py_dict doc)) corpus []"

text \<open>The count a document contributes for a term: the value \<^verbatim>\<open>dict(doc)\<close> holds for it.\<close>

definition doc_count :: "('k \<times> int) list \<Rightarrow> 'k \<Rightarrow> int" where
  "doc_count doc k = (case map_of (rev doc) k of None \<Rightarrow> 0 | Some c \<Rightarrow> c)"

subsection \<open>The forwarding accessor\<close>

text \<open>
  \<^verbatim>\<open>term_topic_matrix\<close> evaluates the attribute \<^verbatim>\<open>self._corpus.term_topic_matrix\<close> as an
  expression statement and falls off the end of the body: the call returns Python's
  \<^verbatim>\<open>None\<close>, here \<open>None\<close>, whatever the attribute holds.
\<close>

definition term_topic_matrix :: "'m \<Rightarrow> 'm option" where
  "term_topic_matrix corpus_term_topic_matrix = (let _ = corpus_term_topic_matrix in None)"

subsection \<open>Top words per topic\<close>

text \<open>
  \<^verbatim>\<open>get_top_words\<close> reads the global name \<^verbatim>\<open>np\<close> and calls \<^verbatim>\<open>np.argpartition\<close> and
  \<^verbatim>\<open>np.argsort\<close>. The binding of \<^verbatim>\<open>np\<close> at the time of the call is a parameter of the
  model: \<open>None\<close> when the name is unbound, as it is in the module as shipped, and
  \<open>Some (argpartition, argsort)\<close> when it is bound to a library with these two routines.
  For a bound library the properties below assume only what numpy documents of the
  routines. Weights are values of a linear order \<open>'w\<close> (floating-point weights without
  NaN).
\<close>

type_synonym 'w argpartition = "'w list \<Rightarrow> int \<Rightarrow> error + nat list"
type_synonym 'w argsort = "'w list \<Rightarrow> nat list"
type_synonym 'w numpy = "'w argpartition \<times> 'w argsort"

text \<open>A negative \<^verbatim>\<open>kth\<close> counts from the end of the array.\<close>

definition normalize_kth :: "nat \<Rightarrow> int \<Rightarrow> int" where
  "normalize_kth n kth = (if kth < 0 then kth + int n else kth)"

text \<open>
  \<^verbatim>\<open>np.argpartition(a, kth)\<close> on a non-empty one-dimensional array: a \<^verbatim>\<open>kth\<close> outside the
  array raises \<^verbatim>\<open>ValueError\<close>; otherwise the result is a permutation of the indices in
  which the index at position \<^verbatim>\<open>kth\<close> is where a full sort would put it, every index
  before it has a weight no larger and every index after it a weight no smaller. The
  order inside the two parts is left open.
\<close>

definition argpartition_contract :: "('w::linorder) argpartition \<Rightarrow> bool" where
  "argpartition_contract argpartition \<longleftrightarrow>
     (\<forall>a kth. a \<noteq> [] \<longrightarrow>
        (let n = length a; k = normalize_kth n kth in
         if k < 0 \<or> int n \<le> k then argpartition a kth = Inl ValueError
         else \<exists>p. argpartition a kth = Inr p \<and> mset p = mset [0..<n] \<and>
                (\<forall>i<n. (i < nat k \<longrightarrow> a ! (p ! i) \<le> a ! (p ! nat k)) \<and>
                        (nat k < i \<longrightarrow> a ! (p ! nat k) \<le> a ! (p ! i)))))"

text \<open>
  \<^verbatim>\<open>np.argsort(a)\<close>: a permutation of the indices that puts the weights in ascending
  order. The default sort kind promises no order among equal weights.
\<close>

definition argsort_contract :: "('w::linorder) argsort \<Rightarrow> bool" where
  "argsort_contract argsort \<longleftrightarrow>
     (\<forall>a. mset (argsort a) = mset [0..<length a] \<and> sorted (map (\<lambda>i. a ! i) (argsort a)))"

text \<open>
  The slice \<^verbatim>\<open>xs[start:]\<close>: a negative start counts from the end and is clamped at the
  beginning, so \<^verbatim>\<open>xs[-0:]\<close> is the whole of \<^verbatim>\<open>xs\<close>.
\<close>

definition slice_from :: "int \<Rightarrow> 'a list \<Rightarrow> 'a list" where
  "slice_from start xs =
     (if start < 0 then drop (nat (int (length xs) + start)) xs else drop (nat start) xs)"

text \<open>Indexing with an index a numpy routine returned: out of range raises \<^verbatim>\<open>IndexError\<close>.\<close>

definition getitem :: "'a list \<Rightarrow> nat \<Rightarrow> error + 'a" where
  "getitem xs i = (if i < length xs then Inr (xs ! i) else Inl IndexError)"

text \<open>A comprehension or loop whose body can raise: the first exception ends it.\<close>

fun map_err :: "('a \<Rightarrow> error + 'b) \<Rightarrow> 'a list \<Rightarrow> error + 'b list" where
  "map_err f [] = Inr []"
| "map_err f (x # xs) =
     (case f x of
        Inl e \<Rightarrow> Inl e
      | Inr y \<Rightarrow> (case map_err f xs of Inl e \<Rightarrow> Inl e | Inr ys \<Rightarrow> Inr (y # ys)))"

text \<open>\<^verbatim>\<open>xs[idx]\<close> with an index array.\<close>

definition fancy_index :: "'a list \<Rightarrow> nat list \<Rightarrow> error + 'a list" where
  "fancy_index xs idx = map_err (getitem xs) idx"

text \<open>\<^verbatim>\<open>d[k]\<close> on a dict raises \<^verbatim>\<open>KeyError\<close> for a missing key.\<close>

definition dict_getitem :: "('k \<rightharpoonup> 'v) \<Rightarrow> 'k \<Rightarrow> error + 'v" where
  "dict_getitem d k = (case d k of None \<Rightarrow> Inl KeyError | Some v \<Rightarrow> Inr v)"

text \<open>The tuple \<^verbatim>\<open>(topic[word_id], self._corpus.get_id2word_dict()[word_id])\<close>.\<close>

definition top_words_entry ::
  "(nat \<rightharpoonup> string) \<Rightarrow> 'w list \<Rightarrow> nat \<Rightarrow> error + ('w \<times> string)" where
  "top_words_entry id2word topic word_id =
     (case getitem topic word_id of
        Inl e \<Rightarrow> Inl e
      | Inr weight \<Rightarrow>
          (case dict_getitem id2word word_id of
             Inl e \<Rightarrow> Inl e
           | Inr term \<Rightarrow> Inr (weight, term)))"

text \<open>
  The body of the loop over the topics:
  \<^verbatim>\<open>word_ids = np.argpartition(topic, -topn)[-topn:]\<close>, then
  \<^verbatim>\<open>word_ids = reversed(word_ids[np.argsort(topic[word_ids])])\<close>, then the list of tuples.
  The first thing the body executes is the read of \<^verbatim>\<open>np\<close>.
\<close>

definition top_words_of_topic ::
  "'w numpy option \<Rightarrow> (nat \<rightharpoonup> string) \<Rightarrow> 'w list \<Rightarrow> int \<Rightarrow> error + ('w \<times> string) list" where
  "top_words_of_topic np id2word topic topn =
     (case np of
        None \<Rightarrow> Inl (unbound_name_error ''np'')
      | Some (argpartition, argsort) \<Rightarrow>
          (case argpartition topic (- topn) of
             Inl e \<Rightarrow> Inl e
           | Inr part \<Rightarrow>
               (let word_ids = slice_from (- topn) part in
                case fancy_index topic word_ids of
                  Inl e \<Rightarrow> Inl e
                | Inr weights \<Rightarrow>
                    (case fancy_index word_ids (argsort weights) of
                       Inl e \<Rightarrow> Inl e
                     | Inr ordered \<Rightarrow> map_err (top_words_entry id2word topic) (rev ordered)))))"

text \<open>
  \<^verbatim>\<open>get_top_words(topn)\<close>; \<open>dz_T\<close> is \<^verbatim>\<open>self.dz.T\<close>, the sequence of topic rows the loop
  iterates, and \<open>id2word\<close> is \<^verbatim>\<open>self._corpus.get_id2word_dict()\<close>.
\<close>

definition get_top_words ::
  "'w numpy option \<Rightarrow> (nat \<rightharpoonup> string) \<Rightarrow> 'w list list \<Rightarrow> int
     \<Rightarrow> error + ('w \<times> string) list list" where
  "get_top_words np id2word dz_T topn =
     map_err (\<lambda>topic. top_words_of_topic np id2word topic topn) dz_T"

text \<open>The binding of \<^verbatim>\<open>np\<close> in the module as shipped: none (\<open>module_globals\<close>).\<close>

definition module_np :: "'w numpy option" where
  "module_np = None"

text \<open>
  Two routines that meet the contracts, to run the model with \<^verbatim>\<open>np\<close> bound: a stable sort
  of the indices by weight, and a partition that checks \<^verbatim>\<open>kth\<close> as numpy does and then
  sorts fully. A second sort routine meets the contract too and puts equal weights in
  the opposite order.
\<close>

definition stable_argsort :: "('w::linorder) argsort" where
  "stable_argsort a = sort_key (\<lambda>i. a ! i) [0..<length a]"

definition sorting_argpartition :: "('w::linorder) argpartition" where
  "sorting_argpartition a kth =
     (let k = normalize_kth (length a) kth in
      if a \<noteq> [] \<and> (k < 0 \<or> int (length a) \<le> k) then Inl ValueError
      else Inr (stable_argsort a))"

definition reverse_tie_argsort :: "('w::linorder) argsort" where
  "reverse_tie_argsort a = sort_key (\<lambda>i. a ! i) (rev [0..<length a])"

text \<open>The entry the loop builds for a word id whose lookups succeed.\<close>

definition entry_of :: "(nat \<rightharpoonup> string) \<Rightarrow> 'w list \<Rightarrow> nat \<Rightarrow> 'w \<times> string" where
  "entry_of id2word topic word_id = (topic ! word_id, the (id2word word_id))"

subsection \<open>Tables: the pandas objects the module builds\<close>

text \<open>
  pandas is not code of this module. The model keeps of it what the module relies on: a
  \<^verbatim>\<open>DataFrame\<close> is a rectangular table with a list of row labels (its index) and a list
  of column labels; assigning a series to a column aligns the series on the row labels;
  \<^verbatim>\<open>iloc\<close> slices by position; \<^verbatim>\<open>.T\<close> swaps the two axes. Labels are integers or strings.
  A cell holds a weight, a count, a term, or NaN where alignment finds no value. Series
  whose index repeats a label are outside what the column assignment models.
\<close>

datatype label = IntL int | StrL string

datatype 'w cell = NumC 'w | IntC int | StrC string | NaN

record 'w frame =
  index :: "label list"
  columns :: "label list"
  cells :: "'w cell list list"


text \<open>The values of a series at the given row labels, NaN where the series has none.\<close>

definition series_reindex :: "(label, 'w cell) series \<Rightarrow> label list \<Rightarrow> 'w cell list" where
  "series_reindex s idx = map (\<lambda>r. case map_of s r of None \<Rightarrow> NaN | Some v \<Rightarrow> v) idx"

text \<open>
  \<^verbatim>\<open>df[name] = s\<close>: a new name appends a column, an existing name overwrites that column.
\<close>

definition setitem_column :: "'w frame \<Rightarrow> label \<Rightarrow> (label, 'w cell) series \<Rightarrow> 'w frame" where
  "setitem_column df name s =
     (let vals = series_reindex s (index df) in
      if name \<in> set (columns df)
      then df\<lparr>cells := map (\<lambda>(row, v). map (\<lambda>(c, x). if c = name then v else x) (zip (columns df) row))
                              (zip (cells df) vals)\<rparr>
      else df\<lparr>columns := columns df @ [name],
              cells := map (\<lambda>(row, v). row @ [v]) (zip (cells df) vals)\<rparr>)"

text \<open>\<^verbatim>\<open>df[name]\<close>: the column as a series over the row labels; \<^verbatim>\<open>KeyError\<close> for an unknown name.\<close>

fun column_position :: "label \<Rightarrow> label list \<Rightarrow> nat option" where
  "column_position name [] = None"
| "column_position name (c # cs) =
     (if c = name then Some 0 else map_option Suc (column_position name cs))"

definition getitem_column :: "'w frame \<Rightarrow> label \<Rightarrow> error + (label, 'w cell) series" where
  "getitem_column df name =
     (case column_position name (columns df) of
        None \<Rightarrow> Inl KeyError
      | Some j \<Rightarrow> Inr (zip (index df) (map (\<lambda>row. row ! j) (cells df))))"

text \<open>The slice \<^verbatim>\<open>xs[:stop]\<close>; a negative stop counts from the end.\<close>

definition slice_upto :: "int \<Rightarrow> 'a list \<Rightarrow> 'a list" where
  "slice_upto stop xs =
     (if stop < 0 then take (nat (int (length xs) + stop)) xs else take (nat stop) xs)"

text \<open>\<^verbatim>\<open>df.iloc[:, :stop]\<close>.\<close>

definition iloc_columns_upto :: "'w frame \<Rightarrow> int \<Rightarrow> 'w frame" where
  "iloc_columns_upto df stop =
     df\<lparr>columns := slice_upto stop (columns df), cells := map (slice_upto stop) (cells df)\<rparr>"

text \<open>\<^verbatim>\<open>df.T\<close>.\<close>

definition frame_T :: "'w frame \<Rightarrow> 'w frame" where
  "frame_T df =
     \<lparr>index = columns df, columns = index df,
      cells = map (\<lambda>j. map (\<lambda>row. row ! j) (cells df)) [0..<length (columns df)]\<rparr>"

text \<open>
  \<^verbatim>\<open>_get_vocab\<close>: \<^verbatim>\<open>pd.Series(dict(self._corpus._dict.items()))\<close>, from the (term-id, term)
  items of the corpus dictionary.
\<close>

definition get_vocab :: "(label \<times> string) list \<Rightarrow> (label, 'w cell) series" where
  "get_vocab dict_items = map (\<lambda>(k, v). (k, StrC v)) (py_dict dict_items)"

text \<open>
  \<^verbatim>\<open>_get_term_data\<close>. \<^verbatim>\<open>self._get_topic_term_dists()\<close> is not defined in the module (a
  concrete model provides it), so its outcome is a parameter: the table or the exception
  it raises. The two column assignments need its rows to be labelled by term-id.
\<close>

definition get_term_data ::
  "(error + 'w frame) \<Rightarrow> (label \<times> int) list list \<Rightarrow> (label \<times> string) list \<Rightarrow> error + 'w frame" where
  "get_term_data topic_term_dists corpus dict_items =
     (let vocab = get_vocab dict_items;
          tf = map (\<lambda>(k, c). (k, IntC c)) (get_term_frequency corpus)
      in case topic_term_dists of
           Inl e \<Rightarrow> Inl e
         | Inr ttd \<Rightarrow>
             Inr (setitem_column (setitem_column ttd (StrL ''term_frequency'') tf) (StrL ''term'') vocab))"

text \<open>
  \<^verbatim>\<open>_get_doc_data\<close>; the outcome of \<^verbatim>\<open>self._get_doc_topic_dists()\<close> is a parameter likewise.
\<close>

definition get_doc_data ::
  "(error + 'w frame) \<Rightarrow> (label \<times> 'e list) list \<Rightarrow> error + 'w frame" where
  "get_doc_data doc_topic_dists inner_corpus =
     (case doc_topic_dists of
        Inl e \<Rightarrow> Inl e
      | Inr doc_data_df \<Rightarrow>
          (case get_doc_lengths inner_corpus of
             Inl e \<Rightarrow> Inl e
           | Inr doc_lengths \<Rightarrow>
               Inr (setitem_column doc_data_df (StrL ''doc_length'')
                      (map (\<lambda>(k, n). (k, IntC (int n))) doc_lengths))))"

text \<open>\<^verbatim>\<open>to_py_lda_vis\<close> returns a dict, kept as the list of its items in the order written.\<close>

datatype 'w pandas = Series "(label, 'w cell) series" | DataFrame "'w frame"

definition to_py_lda_vis ::
  "(error + 'w frame) \<Rightarrow> (error + 'w frame) \<Rightarrow> (label \<times> 'e list) list \<Rightarrow>
     (label \<times> int) list list \<Rightarrow> (label \<times> string) list \<Rightarrow> error + (string \<times> 'w pandas) list" where
  "to_py_lda_vis doc_topic_dists topic_term_dists inner_corpus corpus dict_items =
     (case get_doc_data doc_topic_dists inner_corpus of
        Inl e \<Rightarrow> Inl e
      | Inr doc_data_df \<Rightarrow>
     (case get_term_data topic_term_dists corpus dict_items of
        Inl e \<Rightarrow> Inl e
      | Inr term_data_df \<Rightarrow>
     (case getitem_column term_data_df (StrL ''term'') of
        Inl e \<Rightarrow> Inl e
      | Inr term \<Rightarrow>
     (case getitem_column term_data_df (StrL ''term_frequency'') of
        Inl e \<Rightarrow> Inl e
      | Inr term_frequency \<Rightarrow>
     (case getitem_column doc_data_df (StrL ''doc_length'') of
        Inl e \<Rightarrow> Inl e
      | Inr doc_length \<Rightarrow>
          Inr [(''vocab'', Series term),
               (''term_frequency'', Series term_frequency),
               (''topic_term_dists'', DataFrame (frame_T (iloc_columns_upto term_data_df (- 2)))),
               (''doc_topic_dists'', DataFrame (iloc_columns_upto doc_data_df (- 1))),
               (''doc_lengths'', Series doc_length)])))))"






subsection \<open>Saving and loading\<close>

text \<open>
  The persisted model record, the dict \<^verbatim>\<open>{"class": ..., "saved_data": ...}\<close> that \<^verbatim>\<open>save\<close>
  writes and \<^verbatim>\<open>load_model\<close> reads.
\<close>

record 'args model_record =
  rec_class :: string
  rec_saved_data :: 'args

text \<open>
  Modelled from the spec: the \<^verbatim>\<open>Persistor\<close> class is not part of the module. The spec
  gives it as a key-value store of named model records with \<^verbatim>\<open>store_model(name, record)\<close>,
  \<^verbatim>\<open>list_available_models()\<close> (the set of names) and \<^verbatim>\<open>get_model_details(name)\<close> (the
  record): a finite map from names to records.
\<close>

type_synonym 'args persistor = "string \<rightharpoonup> 'args model_record"

definition store_model :: "'args persistor \<Rightarrow> string \<Rightarrow> 'args model_record \<Rightarrow> 'args persistor" where
  "store_model p name record = p(name \<mapsto> record)"

definition list_available_models :: "'args persistor \<Rightarrow> string set" where
  "list_available_models p = dom p"

definition get_model_details :: "'args persistor \<Rightarrow> string \<Rightarrow> error + 'args model_record" where
  "get_model_details p name = (case p name of None \<Rightarrow> Inl KeyError | Some r \<Rightarrow> Inr r)"

text \<open>
  What \<^verbatim>\<open>save\<close> reads of \<^verbatim>\<open>self\<close>: the class name and the outcome of the abstract
  \<^verbatim>\<open>get_model_name_with_parameters()\<close>, which a concrete model provides.
\<close>

record result_object =
  class_name :: string
  model_name_with_parameters :: "error + string"

text \<open>
  What \<^verbatim>\<open>save\<close> changes: the contents of the corpus's persistor, and the corpus itself,
  saved under a file name (the list of the file names \<^verbatim>\<open>self._corpus.save\<close> was called
  with, in order).
\<close>

record 'args world =
  persisted :: "'args persistor"
  corpus_saved :: "string list"

text \<open>
  \<^verbatim>\<open>save(filename, saved_data)\<close>: the arguments of \<^verbatim>\<open>store_model\<close> are evaluated first, so
  an exception from the naming function leaves everything unchanged; then the record is
  stored, then the corpus saved.
\<close>

definition save :: "result_object \<Rightarrow> string \<Rightarrow> 'args \<Rightarrow> 'args world \<Rightarrow> error + 'args world" where
  "save self filename saved_data w =
     (case model_name_with_parameters self of
        Inl e \<Rightarrow> Inl e
      | Inr name \<Rightarrow>
          (let w1 = w\<lparr>persisted := store_model (persisted w) name
                         \<lparr>rec_class = class_name self, rec_saved_data = saved_data\<rparr>\<rparr>
           in Inr (w1\<lparr>corpus_saved := corpus_saved w1 @ [filename]\<rparr>)))"

text \<open>
  \<^verbatim>\<open>load_model(filename, model_name)\<close>. The body reads the global name \<^verbatim>\<open>Persistor\<close>
  before anything else that matters; its binding at the time of the call is the first
  parameter: \<open>None\<close> when the name is unbound, as in the module as shipped, and
  \<open>Some storage\<close> when it is bound to a class whose instance for \<open>filename\<close> is the
  persistor \<open>storage filename\<close>. \<open>registered_models\<close> is the registry imported from
  \<^verbatim>\<open>topik.models\<close>; a constructor may raise. The second component of the result lists the
  constructor calls made, as (class, arguments).
\<close>

definition not_found_message :: "string \<Rightarrow> string" where
  "not_found_message model_name = ''Model name '' @ model_name @ '' has not yet been created.''"

definition load_model ::
  "(string \<Rightarrow> 'args persistor) option \<Rightarrow> (string \<rightharpoonup> ('args \<Rightarrow> error + 'm)) \<Rightarrow> string \<Rightarrow> string
     \<Rightarrow> (error + 'm) \<times> (string \<times> 'args) list" where
  "load_model Persistor registered_models filename model_name =
     (case Persistor of
        None \<Rightarrow> (Inl (unbound_name_error ''Persistor''), [])
      | Some storage \<Rightarrow>
          (let p = storage filename in
           if model_name \<in> list_available_models p
           then (case get_model_details p model_name of
                   Inl e \<Rightarrow> (Inl e, [])
                 | Inr data_dict \<Rightarrow>
                     (case registered_models (rec_class data_dict) of
                        None \<Rightarrow> (Inl KeyError, [])
                      | Some constructor \<Rightarrow>
                          (constructor (rec_saved_data data_dict),
                           [(rec_class data_dict, rec_saved_data data_dict)])))
           else (Inl (NameError (not_found_message model_name)), [])))"

text \<open>The binding of \<^verbatim>\<open>Persistor\<close> in the module as shipped: none (\<open>module_globals\<close>).\<close>

definition module_Persistor :: "(string \<Rightarrow> 'args persistor) option" where
  "module_Persistor = None"

text \<open>A store with one saved model, a registry with one class, an object to save.\<close>

definition storage_example :: "string \<Rightarrow> nat persistor" where
  "storage_example filename =
     (if filename = ''doctest.model''
      then [''LDA_3_topics'' \<mapsto> \<lparr>rec_class = ''LDA'', rec_saved_data = 3\<rparr>]
      else Map.empty)"

definition registry_example :: "string \<rightharpoonup> (nat \<Rightarrow> error + string \<times> nat)" where
  "registry_example = [''LDA'' \<mapsto> (\<lambda>ntopics. Inr (''LDA'', ntopics))]"

definition lda_object :: result_object where
  "lda_object = \<lparr>class_name = ''LDA'', model_name_with_parameters = Inr ''LDA_3_topics''\<rparr>"

definition empty_world :: "nat world" where
  "empty_world = \<lparr>persisted = Map.empty, corpus_saved = []\<rparr>"

text \<open>
  Modelled from the spec: the corpus adapter that digests a token sequence into the
  (term, count) pairs of a document is not part of the module. The spec gives a digested
  document as the sequence of its terms with their counts.
\<close>

definition bag_of_words :: "'tok list \<Rightarrow> ('tok \<times> nat) list" where
  "bag_of_words tokens = map (\<lambda>t. (t, count_list tokens t)) (remdups tokens)"

text \<open>
  What the selection is required to deliver on a topic row: \<open>n\<close> distinct word ids of the
  row, weights non-increasing along the list, and no weight left out that is larger than
  a weight taken.
\<close>

definition is_top_selection :: "('w::linorder) list \<Rightarrow> nat \<Rightarrow> nat list \<Rightarrow> bool" where
  "is_top_selection topic n ids \<longleftrightarrow>
     length ids = n \<and> distinct ids \<and> set ids \<subseteq> {..<length topic} \<and>
     sorted (rev (map (\<lambda>i. topic ! i) ids)) \<and>
     (\<forall>j<length topic. j \<notin> set ids \<longrightarrow> (\<forall>i\<in>set ids. topic ! j \<le> topic ! i))"

text \<open>A two-word and a three-word vocabulary for the concrete runs.\<close>

definition vocab_ab :: "nat \<rightharpoonup> string" where
  "vocab_ab = [0 \<mapsto> ''a'', 1 \<mapsto> ''b'']"

definition vocab_abc :: "nat \<rightharpoonup> string" where
  "vocab_abc = [0 \<mapsto> ''a'', 1 \<mapsto> ''b'', 2 \<mapsto> ''c'']"

text \<open>Two topics over three terms.\<close>

definition dz_T_example :: "int list list" where
  "dz_T_example = [[1, 1, 0], [3, 5, 4]]"

section \<open>Properties\<close>

subsection \<open>Helper facts on dictionaries\<close>

lemma map_of_fold_update: "map_of (fold (\<lambda>(k, v). AList.update k v) ps acc) = map_of acc ++ map_of (rev ps)"
proof (induction ps arbitrary: acc)
  case Nil
  show ?case by simp
next
  case (Cons p ps)
  obtain k v where p: "p = (k, v)" by (cases p)
  show ?case
    by (rule ext) (auto simp: p Cons.IH update_conv' map_add_def split: option.splits)
qed

lemma map_of_py_dict: "map_of (py_dict ps) = map_of (rev ps)"
  by (simp add: py_dict_def map_of_fold_update)

lemma distinct_fold_update:
  "distinct (map fst acc) \<Longrightarrow> distinct (map fst (fold (\<lambda>(k, v). AList.update k v) ps acc))"
  by (induction ps arbitrary: acc) (auto simp: distinct_update)

lemma distinct_py_dict: "distinct (map fst (py_dict ps))"
  by (simp add: py_dict_def distinct_fold_update)

lemma counter_update_dom:
  "fst ` set (counter_update tf m) = fst ` set tf \<union> fst ` set m"
  unfolding counter_update_def
proof (induction m arbitrary: tf)
  case Nil show ?case by simp
next
  case (Cons p m)
  obtain k v where p: "p = (k, v)" by (cases p)
  show ?case by (simp add: p Cons.IH dom_update[symmetric]) (auto simp: dom_update)
qed

lemma counter_get_update:
  "counter_get (AList.update k v tf) k' = (if k' = k then v else counter_get tf k')"
  by (simp add: counter_get_def update_conv')

lemma counter_update_get:
  "counter_get (counter_update tf m) k =
     counter_get tf k + sum_list (map snd (filter (\<lambda>p. fst p = k) m))"
  unfolding counter_update_def
proof (induction m arbitrary: tf)
  case Nil show ?case by simp
next
  case (Cons p m)
  obtain k' v where p: "p = (k', v)" by (cases p)
  show ?case by (simp add: p Cons.IH counter_get_update)
qed

lemma counter_update_distinct:
  "distinct (map fst tf) \<Longrightarrow> distinct (map fst (counter_update tf m))"
  unfolding counter_update_def
proof (induction m arbitrary: tf)
  case Nil then show ?case by simp
next
  case (Cons p m)
  obtain k v where p: "p = (k, v)" by (cases p)
  show ?case using Cons.prems by (simp add: p Cons.IH distinct_update)
qed

lemma sum_filter_distinct:
  "distinct (map fst m) \<Longrightarrow>
     sum_list (map snd (filter (\<lambda>p. fst p = k) m)) = (case map_of m k of None \<Rightarrow> 0 | Some (c::int) \<Rightarrow> c)"
proof (induction m)
  case Nil show ?case by simp
next
  case (Cons p m)
  obtain k' v where p: "p = (k', v)" by (cases p)
  have d: "distinct (map fst m)" "k' \<notin> fst ` set m" using Cons.prems by (auto simp: p)
  show ?case
  proof (cases "k' = k")
    case True
    then have "filter (\<lambda>p. fst p = k) m = []" using d(2) by (auto simp: filter_empty_conv)
    then show ?thesis using True by (simp add: p)
  next
    case False
    then show ?thesis using Cons.IH[OF d(1)] by (simp add: p)
  qed
qed

lemma py_dict_count:
  "sum_list (map snd (filter (\<lambda>p. fst p = k) (py_dict doc))) = doc_count doc k"
  by (simp add: sum_filter_distinct distinct_py_dict map_of_py_dict doc_count_def)

lemma set_py_dict_keys: "fst ` set (py_dict doc) = fst ` set doc"
proof -
  have "dom (map_of (py_dict doc)) = dom (map_of (rev doc))" by (simp add: map_of_py_dict)
  then show ?thesis by (simp add: dom_map_of_conv_image_fst)
qed

lemma term_frequency_fold_keys:
  "fst ` set (fold (\<lambda>doc tf. counter_update tf (py_dict doc)) corpus tf0) =
     fst ` set tf0 \<union> (\<Union>doc \<in> set corpus. fst ` set doc)"
  by (induction corpus arbitrary: tf0) (auto simp: counter_update_dom set_py_dict_keys)

lemma term_frequency_fold_get:
  "counter_get (fold (\<lambda>doc tf. counter_update tf (py_dict doc)) corpus tf0) k =
     counter_get tf0 k + (\<Sum>doc \<leftarrow> corpus. doc_count doc k)"
  by (induction corpus arbitrary: tf0) (auto simp: counter_update_get py_dict_count)

lemma term_frequency_fold_distinct:
  "distinct (map fst tf0) \<Longrightarrow>
     distinct (map fst (fold (\<lambda>doc tf. counter_update tf (py_dict doc)) corpus tf0))"
  by (induction corpus arbitrary: tf0) (auto simp: counter_update_distinct)

lemma map_of_counter_get:
  "map_of tf k = (if k \<in> fst ` set tf then Some (counter_get tf k) else None)"
  by (auto simp: counter_get_def map_of_eq_None_iff split: option.splits)

lemma unpack_zip_star_rezip:
  "pairs \<noteq> [] \<Longrightarrow>
     (case unpack_zip_star pairs of Inl e \<Rightarrow> Inl e | Inr (xs, ys) \<Rightarrow> Inr (zip xs ys)) = Inr pairs"
  by (simp add: unpack_zip_star_def zip_map_fst_snd)

lemma bag_of_words_total: "sum_list (map snd (bag_of_words tokens)) = length tokens"
proof -
  have "sum_list (map snd (bag_of_words tokens)) = sum_list (map (count_list tokens) (remdups tokens))"
    by (simp add: bag_of_words_def comp_def)
  also have "\<dots> = sum (count_list tokens) (set (remdups tokens))"
    by (rule sum_list_distinct_conv_sum_set) simp
  also have "\<dots> = length tokens" by (simp add: sum_count_set)
  finally show ?thesis .
qed

lemma get_doc_lengths_Nil: "get_doc_lengths [] = Inl ValueError"
  by (simp add: get_doc_lengths_def unpack_zip_star_def)

subsection \<open>Helper facts on the unbound names\<close>

lemma module_leaves_names_unbound:
  "''np'' \<notin> set module_globals \<and> ''Persistor'' \<notin> set module_globals"
  by (simp add: module_globals_def)

lemma unbound_np_message: "unbound_name_error ''np'' = NameError ''name 'np' is not defined''"
  by (simp add: unbound_name_error_def)

lemma get_top_words_unbound_np:
  "dz_T \<noteq> [] \<Longrightarrow> get_top_words None id2word dz_T topn = Inl (unbound_name_error ''np'')"
  by (cases dz_T) (simp_all add: get_top_words_def top_words_of_topic_def)

subsection \<open>Helper facts on the top-words loop with numpy bound\<close>

lemma map_err_total:
  "(\<And>x. x \<in> set xs \<Longrightarrow> f x = Inr (g x)) \<Longrightarrow> map_err f xs = Inr (map g xs)"
  by (induction xs) simp_all

lemma map_err_Inr:
  "map_err f xs = Inr ys \<Longrightarrow> list_all2 (\<lambda>x y. f x = Inr y) xs ys"
proof (induction xs arbitrary: ys)
  case Nil then show ?case by simp
next
  case (Cons x xs)
  then show ?case by (auto split: sum.splits)
qed

lemma map_err_hd_fails: "f x = Inl e \<Longrightarrow> map_err f (x # xs) = Inl e"
  by simp

lemma fancy_index_in_range:
  "set idx \<subseteq> {..<length xs} \<Longrightarrow> fancy_index xs idx = Inr (map (\<lambda>i. xs ! i) idx)"
  unfolding fancy_index_def
  by (rule map_err_total) (auto simp: getitem_def)

lemma index_perm_facts:
  assumes "mset q = mset [0..<m]"
  shows "set q = {..<m}" "distinct q" "length q = m"
proof -
  have "set q = set [0..<m]" using assms by (rule mset_eq_setD)
  then show "set q = {..<m}" by (simp add: atLeast0LessThan)
  have "distinct q = distinct [0..<m]" using assms by (rule mset_eq_imp_distinct_iff)
  then show "distinct q" by simp
  have "length q = length [0..<m]" using assms by (rule mset_eq_length)
  then show "length q = m" by simp
qed

lemma mset_reindex:
  assumes "mset q = mset [0..<length xs]"
  shows "mset (map (\<lambda>i. xs ! i) q) = mset xs"
proof -
  have "mset (map (\<lambda>i. xs ! i) q) = image_mset (\<lambda>i. xs ! i) (mset q)" by simp
  also have "\<dots> = mset (map (\<lambda>i. xs ! i) [0..<length xs])" by (simp add: assms)
  also have "\<dots> = mset xs" by (simp add: map_nth)
  finally show ?thesis .
qed

lemma slice_from_last:
  "1 \<le> topn \<Longrightarrow> topn \<le> int (length xs) \<Longrightarrow>
     slice_from (- topn) xs = drop (length xs - nat topn) xs"
proof -
  assume a: "1 \<le> topn" "topn \<le> int (length xs)"
  then have "nat (int (length xs) + - topn) = length xs - nat topn" by linarith
  then show ?thesis using a by (simp add: slice_from_def)
qed

lemma in_set_drop_nth:
  "x \<in> set (drop n xs) \<longleftrightarrow> (\<exists>i. n \<le> i \<and> i < length xs \<and> xs ! i = x)"
proof
  assume "x \<in> set (drop n xs)"
  then obtain j where j: "j < length (drop n xs)" "drop n xs ! j = x"
    by (auto simp: in_set_conv_nth)
  then have "n \<le> n + j \<and> n + j < length xs \<and> xs ! (n + j) = x" by auto
  then show "\<exists>i. n \<le> i \<and> i < length xs \<and> xs ! i = x" by blast
next
  assume "\<exists>i. n \<le> i \<and> i < length xs \<and> xs ! i = x"
  then obtain i where i: "n \<le> i" "i < length xs" "xs ! i = x" by blast
  then have "i - n < length (drop n xs)" "drop n xs ! (i - n) = x" by auto
  then show "x \<in> set (drop n xs)" by (metis nth_mem)
qed

lemma top_words_entry_ok:
  "i < length topic \<Longrightarrow> id2word i \<noteq> None \<Longrightarrow>
     top_words_entry id2word topic i = Inr (entry_of id2word topic i)"
  by (auto simp: top_words_entry_def getitem_def dict_getitem_def entry_of_def)

lemma argpartition_contractD:
  assumes "argpartition_contract ap" "a \<noteq> []" "normalize_kth (length a) kth = int K"
    "K < length a"
  shows "\<exists>p. ap a kth = Inr p \<and> mset p = mset [0..<length a] \<and>
           (\<forall>i<K. a ! (p ! i) \<le> a ! (p ! K)) \<and>
           (\<forall>i<length a. K < i \<longrightarrow> a ! (p ! K) \<le> a ! (p ! i))"
proof -
  from assms(1)[unfolded argpartition_contract_def, rule_format, OF assms(2), of kth]
  have "\<exists>p. ap a kth = Inr p \<and> mset p = mset [0..<length a] \<and>
          (\<forall>i<length a. (i < K \<longrightarrow> a ! (p ! i) \<le> a ! (p ! K)) \<and>
             (K < i \<longrightarrow> a ! (p ! K) \<le> a ! (p ! i)))"
    using assms(3,4) by (simp add: Let_def)
  then obtain p where p: "ap a kth = Inr p" "mset p = mset [0..<length a]"
    and q: "\<forall>i<length a. (i < K \<longrightarrow> a ! (p ! i) \<le> a ! (p ! K)) \<and>
             (K < i \<longrightarrow> a ! (p ! K) \<le> a ! (p ! i))"
    by blast
  have "\<forall>i<K. a ! (p ! i) \<le> a ! (p ! K)"
  proof (intro allI impI)
    fix i assume "i < K"
    moreover from this have "i < length a" using assms(4) by simp
    ultimately show "a ! (p ! i) \<le> a ! (p ! K)" using q by blast
  qed
  moreover have "\<forall>i<length a. K < i \<longrightarrow> a ! (p ! K) \<le> a ! (p ! i)" using q by blast
  ultimately show ?thesis using p by blast
qed

lemma argpartition_contract_out_of_bounds:
  assumes "argpartition_contract ap" "a \<noteq> []"
    "normalize_kth (length a) kth < 0 \<or> int (length a) \<le> normalize_kth (length a) kth"
  shows "ap a kth = Inl ValueError"
  using assms(1)[unfolded argpartition_contract_def, rule_format, OF assms(2), of kth] assms(3)
  by (simp add: Let_def)

lemma top_words_of_topic_correct:
  assumes ap: "argpartition_contract ap" and asrt: "argsort_contract asrt"
    and vocab: "\<And>i. i < length topic \<Longrightarrow> id2word i \<noteq> None"
    and topn: "1 \<le> topn" "topn \<le> int (length topic)"
  shows "\<exists>ids. top_words_of_topic (Some (ap, asrt)) id2word topic topn = Inr (map (entry_of id2word topic) ids)
          \<and> length ids = nat topn \<and> distinct ids \<and> set ids \<subseteq> {..<length topic}
          \<and> sorted (rev (map (\<lambda>i. topic ! i) ids))
          \<and> (\<forall>j<length topic. j \<notin> set ids \<longrightarrow> (\<forall>i\<in>set ids. topic ! j \<le> topic ! i))"
proof -
  let ?n = "length topic"
  define K where "K = ?n - nat topn"
  have ne: "topic \<noteq> []" using topn by auto
  have nk: "normalize_kth ?n (- topn) = int K"
    using topn by (simp add: normalize_kth_def K_def)
  have Kn: "K < ?n" using topn by (simp add: K_def)
  obtain p where p: "ap topic (- topn) = Inr p" "mset p = mset [0..<?n]"
    and lo': "\<forall>i<K. topic ! (p ! i) \<le> topic ! (p ! K)"
    and hi': "\<forall>i<?n. K < i \<longrightarrow> topic ! (p ! K) \<le> topic ! (p ! i)"
    using argpartition_contractD[OF ap ne nk Kn] by blast
  have lo: "\<And>i. i < K \<Longrightarrow> topic ! (p ! i) \<le> topic ! (p ! K)" using lo' by blast
  have hi: "\<And>i. K < i \<Longrightarrow> i < ?n \<Longrightarrow> topic ! (p ! K) \<le> topic ! (p ! i)" using hi' by blast
  note pf = index_perm_facts[OF p(2)]
  define wids where "wids = slice_from (- topn) p"
  have wids: "wids = drop K p"
    using slice_from_last[of topn p] topn pf(3) by (simp add: wids_def K_def)
  have wlen: "length wids = nat topn" using topn pf(3) by (simp add: wids K_def)
  have wset: "set wids \<subseteq> {..<?n}" using set_drop_subset[of K p] pf(1) by (simp add: wids)
  have wdist: "distinct wids" using pf(2) by (simp add: wids)
  define ws where "ws = map (\<lambda>i. topic ! i) wids"
  have f1: "fancy_index topic wids = Inr ws"
    unfolding ws_def by (rule fancy_index_in_range[OF wset])
  define q where "q = asrt ws"
  have q: "mset q = mset [0..<length wids]" "sorted (map (\<lambda>i. ws ! i) q)"
    using asrt[unfolded argsort_contract_def, rule_format, of ws] by (simp_all add: q_def ws_def)
  note qf = index_perm_facts[OF q(1)]
  define ordered where "ordered = map (\<lambda>i. wids ! i) q"
  have f2: "fancy_index wids q = Inr ordered"
    unfolding ordered_def by (rule fancy_index_in_range) (simp add: qf(1))
  have om: "mset ordered = mset wids" unfolding ordered_def by (rule mset_reindex[OF q(1)])
  have oset: "set ordered = set wids" using om by (rule mset_eq_setD)
  have odist: "distinct ordered" using mset_eq_imp_distinct_iff[OF om] wdist by simp
  have olen: "length ordered = nat topn" using mset_eq_length[OF om] wlen by simp
  have "map (\<lambda>i. topic ! i) ordered = map (\<lambda>i. ws ! i) q"
    unfolding ordered_def ws_def using qf(1) by (auto simp: map_eq_conv)
  then have osorted: "sorted (map (\<lambda>i. topic ! i) ordered)" using q(2) by simp
  have f3: "map_err (top_words_entry id2word topic) (rev ordered)
              = Inr (map (entry_of id2word topic) (rev ordered))"
  proof (rule map_err_total)
    fix x assume "x \<in> set (rev ordered)"
    then have "x < ?n" using oset wset by auto
    then show "top_words_entry id2word topic x = Inr (entry_of id2word topic x)"
      using vocab by (simp add: top_words_entry_ok)
  qed
  have res: "top_words_of_topic (Some (ap, asrt)) id2word topic topn
               = Inr (map (entry_of id2word topic) (rev ordered))"
    unfolding top_words_of_topic_def
    by (simp add: p(1) wids_def[symmetric] f1 q_def[symmetric] f2 f3)
  have dom: "\<forall>j<?n. j \<notin> set (rev ordered) \<longrightarrow> (\<forall>i\<in>set (rev ordered). topic ! j \<le> topic ! i)"
  proof (intro allI impI ballI)
    fix j i assume j: "j < ?n" "j \<notin> set (rev ordered)" and i: "i \<in> set (rev ordered)"
    from j(1) have "j \<in> set p" using pf(1) by simp
    then obtain a where a: "a < length p" "p ! a = j" by (auto simp: in_set_conv_nth)
    have "a < K"
    proof (rule ccontr)
      assume "\<not> a < K"
      then have "K \<le> a \<and> a < length p \<and> p ! a = p ! a" using a(1) by simp
      then have "p ! a \<in> set (drop K p)" unfolding in_set_drop_nth by blast
      then show False using j(2) a(2) oset wids by simp
    qed
    from i have "i \<in> set (drop K p)" using oset wids by simp
    then obtain b where b: "K \<le> b" "b < length p" "p ! b = i"
      by (auto simp: in_set_drop_nth)
    have "topic ! (p ! a) \<le> topic ! (p ! K)" using lo[OF \<open>a < K\<close>] .
    also have "topic ! (p ! K) \<le> topic ! (p ! b)"
    proof (cases "b = K")
      case True then show ?thesis by simp
    next
      case False
      then show ?thesis using hi[of b] b pf(3) by simp
    qed
    finally show "topic ! j \<le> topic ! i" using a(2) b(3) by simp
  qed
  show ?thesis
    apply (rule exI[of _ "rev ordered"])
    using res olen odist oset wset osorted dom
    by (simp add: rev_map)
qed

lemma stable_argsort_contract: "argsort_contract stable_argsort"
  by (simp add: argsort_contract_def stable_argsort_def)

lemma sorting_argpartition_contract: "argpartition_contract sorting_argpartition"
  unfolding argpartition_contract_def
proof (intro allI impI)
  fix a :: "'a list" and kth :: int
  assume ne: "a \<noteq> []"
  let ?n = "length a"
  let ?k = "normalize_kth ?n kth"
  let ?p = "stable_argsort a"
  have len: "length ?p = ?n" by (simp add: stable_argsort_def)
  have srt: "sorted (map (\<lambda>i. a ! i) ?p)" by (simp add: stable_argsort_def)
  have mono: "\<And>i j. i \<le> j \<Longrightarrow> j < ?n \<Longrightarrow> a ! (?p ! i) \<le> a ! (?p ! j)"
  proof -
    fix i j assume ij: "i \<le> j" "j < ?n"
    then have "map (\<lambda>i. a ! i) ?p ! i \<le> map (\<lambda>i. a ! i) ?p ! j"
      using sorted_nth_mono[OF srt, of i j] len by simp
    then show "a ! (?p ! i) \<le> a ! (?p ! j)" using ij len by simp
  qed
  show "let n = length a; k = normalize_kth n kth in
         if k < 0 \<or> int n \<le> k then sorting_argpartition a kth = Inl ValueError
         else \<exists>p. sorting_argpartition a kth = Inr p \<and> mset p = mset [0..<n] \<and>
                (\<forall>i<n. (i < nat k \<longrightarrow> a ! (p ! i) \<le> a ! (p ! nat k)) \<and>
                        (nat k < i \<longrightarrow> a ! (p ! nat k) \<le> a ! (p ! i)))"
  proof (cases "?k < 0 \<or> int ?n \<le> ?k")
    case True
    then show ?thesis using ne by (simp add: sorting_argpartition_def Let_def)
  next
    case False
    then have k: "nat ?k < ?n" by linarith
    have r: "sorting_argpartition a kth = Inr ?p"
      using False by (simp add: sorting_argpartition_def Let_def)
    have m: "mset ?p = mset [0..<?n]" by (simp add: stable_argsort_def)
    have "\<forall>i<?n. (i < nat ?k \<longrightarrow> a ! (?p ! i) \<le> a ! (?p ! nat ?k)) \<and>
                        (nat ?k < i \<longrightarrow> a ! (?p ! nat ?k) \<le> a ! (?p ! i))"
      using mono k by (simp add: less_imp_le)
    then show ?thesis using False r m by (simp add: Let_def)
  qed
qed

lemma map_err_nth:
  assumes "\<And>t. t < length xs \<Longrightarrow> \<exists>y. f (xs ! t) = Inr y \<and> P t y"
  shows "\<exists>ys. map_err f xs = Inr ys \<and> length ys = length xs \<and> (\<forall>t<length xs. P t (ys ! t))"
  using assms
proof (induction xs arbitrary: P)
  case Nil
  show ?case by simp
next
  case (Cons x xs)
  from Cons.prems[of 0] obtain y where y: "f x = Inr y" "P 0 y" by auto
  have "\<And>t. t < length xs \<Longrightarrow> \<exists>y. f (xs ! t) = Inr y \<and> P (Suc t) y"
    using Cons.prems[of "Suc _"] by simp
  from Cons.IH[of "\<lambda>t. P (Suc t)", OF this]
  obtain ys where ys: "map_err f xs = Inr ys" "length ys = length xs"
    "\<forall>t<length xs. P (Suc t) (ys ! t)" by blast
  have "\<forall>t<length (x # xs). P t ((y # ys) ! t)"
  proof (intro allI impI)
    fix t assume "t < length (x # xs)"
    then show "P t ((y # ys) ! t)" using y(2) ys(3) by (cases t) simp_all
  qed
  then show ?case using y(1) ys(1,2) by simp
qed

lemma top_words_of_topic_selects:
  assumes "argpartition_contract ap" "argsort_contract asrt"
    and "\<And>i. i < length topic \<Longrightarrow> id2word i \<noteq> None"
    and "1 \<le> topn" "topn \<le> int (length topic)"
  shows "\<exists>row. top_words_of_topic (Some (ap, asrt)) id2word topic topn = Inr row \<and>
           (\<exists>ids. row = map (entry_of id2word topic) ids \<and> is_top_selection topic (nat topn) ids)"
proof -
  have "\<exists>ids. top_words_of_topic (Some (ap, asrt)) id2word topic topn = Inr (map (entry_of id2word topic) ids)
          \<and> length ids = nat topn \<and> distinct ids \<and> set ids \<subseteq> {..<length topic}
          \<and> sorted (rev (map (\<lambda>i. topic ! i) ids))
          \<and> (\<forall>j<length topic. j \<notin> set ids \<longrightarrow> (\<forall>i\<in>set ids. topic ! j \<le> topic ! i))"
    by (rule top_words_of_topic_correct[OF assms(1,2) _ assms(4,5)]) (rule assms(3))
  then show ?thesis unfolding is_top_selection_def by blast
qed

lemma get_top_words_no_topics: "get_top_words np id2word [] topn = Inr []"
  by (simp add: get_top_words_def)

lemma reverse_tie_argsort_contract: "argsort_contract reverse_tie_argsort"
  by (simp add: argsort_contract_def reverse_tie_argsort_def)

text \<open>
  With \<^verbatim>\<open>np\<close> bound to routines that meet numpy's contracts and \<open>1 \<le> topn \<le> V\<close> (\<open>V\<close> the
  vocabulary size, the length of every topic row), the loop returns one list per topic,
  each a top selection of \<open>topn\<close> terms.
\<close>

lemma get_top_words_selects_top:
  assumes "argpartition_contract ap" "argsort_contract asrt"
    and "\<forall>topic \<in> set dz_T. length topic = V"
    and "\<forall>i<V. id2word i \<noteq> None"
    and "1 \<le> topn" "topn \<le> int V"
  shows "\<exists>rows. get_top_words (Some (ap, asrt)) id2word dz_T topn = Inr rows \<and>
           length rows = length dz_T \<and>
           (\<forall>t<length dz_T. \<exists>ids. rows ! t = map (entry_of id2word (dz_T ! t)) ids \<and>
                                 is_top_selection (dz_T ! t) (nat topn) ids)"
  unfolding get_top_words_def
proof (rule map_err_nth)
  fix t assume t: "t < length dz_T"
  then have len: "length (dz_T ! t) = V" using assms(3) by simp
  show "\<exists>row. top_words_of_topic (Some (ap, asrt)) id2word (dz_T ! t) topn = Inr row \<and>
          (\<exists>ids. row = map (entry_of id2word (dz_T ! t)) ids \<and>
                 is_top_selection (dz_T ! t) (nat topn) ids)"
    by (rule top_words_of_topic_selects[OF assms(1,2)]) (use assms(4,5,6) len in auto)
qed

lemma sort_append_le:
  "(\<forall>a\<in>set A. \<forall>b\<in>set B. a \<le> b) \<Longrightarrow> sort (A @ B) = sort A @ sort B"
  by (rule properties_for_sort) (auto simp: sorted_append)

lemma mset_split_by_ids:
  assumes "distinct ids" "set ids \<subseteq> {..<V}"
  shows "mset [0..<V] = mset ids + mset (filter (\<lambda>j. j \<notin> set ids) [0..<V])"
proof -
  have "set (filter (\<lambda>j. j \<in> set ids) [0..<V]) = set ids" using assms(2) by auto
  moreover have "distinct (filter (\<lambda>j. j \<in> set ids) [0..<V])" by simp
  ultimately have "mset (filter (\<lambda>j. j \<in> set ids) [0..<V]) = mset ids"
    using assms(1) set_eq_iff_mset_eq_distinct by blast
  moreover have "mset [0..<V] = mset (filter (\<lambda>j. j \<in> set ids) [0..<V])
                   + mset (filter (\<lambda>j. j \<notin> set ids) [0..<V])"
    by (simp only: mset_filter multiset_partition[symmetric])
  ultimately show ?thesis by simp
qed

lemma top_selection_weights:
  assumes "is_top_selection topic n ids"
  shows "map (\<lambda>i. topic ! i) ids = rev (drop (length topic - n) (sort topic))"
proof -
  let ?V = "length topic"
  let ?w = "\<lambda>i. topic ! i"
  from assms have len: "length ids = n" and dist: "distinct ids" and sub: "set ids \<subseteq> {..<?V}"
    and srt: "sorted (rev (map ?w ids))"
    and dom: "\<forall>j<?V. j \<notin> set ids \<longrightarrow> (\<forall>i\<in>set ids. topic ! j \<le> topic ! i)"
    unfolding is_top_selection_def by blast+
  define rest where "rest = filter (\<lambda>j. j \<notin> set ids) [0..<?V]"
  define A where "A = map ?w rest"
  define B where "B = rev (map ?w ids)"
  have m: "mset [0..<?V] = mset ids + mset rest"
    unfolding rest_def by (rule mset_split_by_ids[OF dist sub])
  have "length [0..<?V] = length ids + length rest"
    using arg_cong[OF m, of size] by simp
  then have lrest: "length rest = ?V - n" using len by simp
  have "mset topic = mset (map ?w [0..<?V])" by (simp add: map_nth)
  also have "\<dots> = image_mset ?w (mset ids + mset rest)" using m by simp
  also have "\<dots> = mset (A @ B)" by (simp add: A_def B_def)
  finally have mt: "mset (A @ B) = mset topic" by simp
  have le: "\<forall>a\<in>set A. \<forall>b\<in>set B. a \<le> b"
  proof (intro ballI)
    fix a b assume "a \<in> set A" "b \<in> set B"
    then obtain j i where j: "j \<in> set rest" "a = topic ! j" and i: "i \<in> set ids" "b = topic ! i"
      by (auto simp: A_def B_def)
    from j(1) have "j < ?V" "j \<notin> set ids" by (auto simp: rest_def)
    then show "a \<le> b" using dom i j(2) by blast
  qed
  have mt': "mset A + mset B = mset topic" using mt by simp
  have "sort topic = sort (A @ B)"
    by (rule properties_for_sort) (simp_all add: mt')
  also have "\<dots> = sort A @ sort B" by (rule sort_append_le[OF le])
  also have "sort B = B" using srt by (simp add: B_def sort_key_id_if_sorted)
  finally have "sort topic = sort A @ B" .
  then have "drop (?V - n) (sort topic) = B" using lrest by (simp add: A_def)
  then show ?thesis by (simp add: B_def)
qed

lemma get_top_words_tie_order_depends_on_sort:
  "get_top_words (Some (sorting_argpartition, reverse_tie_argsort)) vocab_ab [[1, 1 :: int]] 2
     = Inr [[(1, ''a''), (1, ''b'')]]"
  by code_simp

subsection \<open>Helper facts on the tables\<close>







lemma length_append_column:
  "length vs = length cs \<Longrightarrow> length (map (\<lambda>(row, v). row @ [v]) (zip cs vs)) = length cs"
  by simp











subsection \<open>Helper facts on loading\<close>

text \<open>
  What \<^verbatim>\<open>load_model\<close> would do with \<^verbatim>\<open>Persistor\<close> bound: a not-found error naming the model
  and no constructor call for a name outside the catalog, the registered constructor on
  the stored arguments for a name in it, \<^verbatim>\<open>KeyError\<close> for an unregistered class.
\<close>

lemma load_model_with_Persistor_bound:
  "(storage filename model_name = None \<longrightarrow>
      load_model (Some storage) registered_models filename model_name
        = (Inl (NameError (''Model name '' @ model_name @ '' has not yet been created.'')), [])) \<and>
   (\<forall>data_dict constructor.
      storage filename model_name = Some data_dict \<and>
      registered_models (rec_class data_dict) = Some constructor \<longrightarrow>
      load_model (Some storage) registered_models filename model_name
        = (constructor (rec_saved_data data_dict),
           [(rec_class data_dict, rec_saved_data data_dict)])) \<and>
   (\<forall>data_dict.
      storage filename model_name = Some data_dict \<and>
      registered_models (rec_class data_dict) = None \<longrightarrow>
      load_model (Some storage) registered_models filename model_name = (Inl KeyError, []))"
  by (auto simp: load_model_def list_available_models_def get_model_details_def
        not_found_message_def Let_def)

subsection \<open>Claims on the top words\<close>

text \<open>
  C1 (as the code behaves). The claim promises, for every matrix and every \<open>topn\<close> up to
  the vocabulary size, one list of \<open>topn\<close> (weight, term) pairs per topic. The module never
  binds the name \<^verbatim>\<open>np\<close> that the loop body reads, so for a matrix with one topic row
  \<open>[1, 2]\<close> and \<open>topn = 1\<close> the call \<^verbatim>\<open>get_top_words(1)\<close> raises \<^verbatim>\<open>NameError\<close> and returns no
  list.
\<close>

theorem get_top_words_raises_name_error:
  "get_top_words module_np vocab_ab [[1, 2 :: int]] 1 = Inl (NameError ''name 'np' is not defined'')"
  by (simp add: get_top_words_def top_words_of_topic_def module_np_def unbound_name_error_def)

text \<open>
  C2, the claim as stated fails: on a row \<open>[1, 1]\<close> with \<open>topn = 2\<close> the module as shipped
  raises \<^verbatim>\<open>NameError\<close>, so no tie is broken at all; and with \<^verbatim>\<open>np\<close> bound to routines that
  meet numpy's contracts the loop lists term 1 before term 0, and with \<open>topn = 1\<close> selects
  term 1, not term 0.
\<close>

theorem get_top_words_tie_counterexample:
  "get_top_words module_np vocab_ab [[1, 1 :: int]] 2 = Inl (NameError ''name 'np' is not defined'') \<and>
   get_top_words (Some (sorting_argpartition, stable_argsort)) vocab_ab [[1, 1 :: int]] 2
     = Inr [[(1, ''b''), (1, ''a'')]] \<and>
   get_top_words (Some (sorting_argpartition, stable_argsort)) vocab_ab [[1, 1 :: int]] 1
     = Inr [[(1, ''b'')]]"
proof -
  have "get_top_words module_np vocab_ab [[1, 1 :: int]] 2 = Inl (NameError ''name 'np' is not defined'')"
    by (simp add: get_top_words_def top_words_of_topic_def module_np_def unbound_name_error_def)
  moreover have "get_top_words (Some (sorting_argpartition, stable_argsort)) vocab_ab [[1, 1 :: int]] 2
     = Inr [[(1, ''b''), (1, ''a'')]]"
    by code_simp
  moreover have "get_top_words (Some (sorting_argpartition, stable_argsort)) vocab_ab [[1, 1 :: int]] 1
     = Inr [[(1, ''b'')]]"
    by code_simp
  ultimately show ?thesis by simp
qed

text \<open>
  C2, amended. The loop has no tie-breaking step. With \<^verbatim>\<open>np\<close> bound to any routines that
  meet numpy's contracts and \<open>1 \<le> topn \<le> V\<close>, the weights of each topic's list are the same
  however ties fall: the \<open>topn\<close> largest weights of the row, in non-increasing order.
  Which of several terms of equal weight is listed, and in which order, is left to the
  two routines and does not follow the term ids.
\<close>

theorem get_top_words_weights_determined:
  assumes "argpartition_contract argpartition" "argsort_contract argsort"
    and "\<forall>topic \<in> set dz_T. length topic = V"
    and "\<forall>i<V. id2word i \<noteq> None"
    and "1 \<le> topn" "topn \<le> int V"
  shows "\<exists>rows. get_top_words (Some (argpartition, argsort)) id2word dz_T topn = Inr rows \<and>
           map (map fst) rows = map (\<lambda>topic. rev (drop (V - nat topn) (sort topic))) dz_T"
proof -
  from get_top_words_selects_top[OF assms]
  obtain rows where r: "get_top_words (Some (argpartition, argsort)) id2word dz_T topn = Inr rows"
    and l: "length rows = length dz_T"
    and s: "\<forall>t<length dz_T. \<exists>ids. rows ! t = map (entry_of id2word (dz_T ! t)) ids \<and>
                                 is_top_selection (dz_T ! t) (nat topn) ids"
    by blast
  have "map (map fst) rows = map (\<lambda>topic. rev (drop (V - nat topn) (sort topic))) dz_T"
  proof (rule nth_equalityI)
    show "length (map (map fst) rows)
            = length (map (\<lambda>topic. rev (drop (V - nat topn) (sort topic))) dz_T)"
      using l by simp
  next
    fix t assume "t < length (map (map fst) rows)"
    then have t: "t < length dz_T" using l by simp
    then have V: "length (dz_T ! t) = V" using assms(3) by simp
    from s t obtain ids where ids: "rows ! t = map (entry_of id2word (dz_T ! t)) ids"
      "is_top_selection (dz_T ! t) (nat topn) ids" by blast
    have "map fst (rows ! t) = map (\<lambda>i. (dz_T ! t) ! i) ids"
      by (simp add: ids(1) entry_of_def comp_def)
    also have "\<dots> = rev (drop (V - nat topn) (sort (dz_T ! t)))"
      using top_selection_weights[OF ids(2)] V by simp
    finally show "map (map fst) rows ! t
        = map (\<lambda>topic. rev (drop (V - nat topn) (sort topic))) dz_T ! t"
      using t l by simp
  qed
  then show ?thesis using r by blast
qed

theorem get_top_words_weights_determined_witness:
  "\<exists>rows. get_top_words (Some (sorting_argpartition, reverse_tie_argsort)) vocab_abc dz_T_example 2
             = Inr rows \<and>
          map (map fst) rows = [[1, 1], [5, 4]]"
proof -
  have h3: "\<forall>topic \<in> set dz_T_example. length topic = 3" by (simp add: dz_T_example_def)
  have h4: "\<forall>i<3. vocab_abc i \<noteq> None" by (simp add: vocab_abc_def)
  have h5: "(1 :: int) \<le> 2" and h6: "(2 :: int) \<le> int 3" by simp_all
  have "map (\<lambda>topic. rev (drop (3 - nat 2) (sort topic))) dz_T_example = [[1, 1], [5, 4]]"
    by (simp add: dz_T_example_def)
  with get_top_words_weights_determined
          [OF sorting_argpartition_contract reverse_tie_argsort_contract h3 h4 h5 h6]
  show ?thesis by simp
qed

text \<open>
  C3, the claim as stated fails: with \<open>topn = 3\<close> over a vocabulary of two terms the call
  raises an exception (in the module as shipped the \<^verbatim>\<open>NameError\<close> of the unbound \<^verbatim>\<open>np\<close>).
\<close>

theorem get_top_words_topn_too_large_counterexample:
  "get_top_words module_np vocab_ab [[1, 2 :: int]] 3 = Inl (NameError ''name 'np' is not defined'')"
  by (simp add: get_top_words_def top_words_of_topic_def module_np_def unbound_name_error_def)

text \<open>
  C3, amended. When \<open>topn\<close> exceeds the vocabulary size, the matrix has at least one topic
  row and the vocabulary is not empty, \<^verbatim>\<open>get_top_words(topn)\<close> raises instead of returning:
  \<^verbatim>\<open>NameError\<close> in the module as shipped, and \<^verbatim>\<open>ValueError\<close>, from the bounds check of
  \<^verbatim>\<open>np.argpartition\<close> on \<^verbatim>\<open>kth\<close>, once \<^verbatim>\<open>np\<close> is bound to numpy. Nothing is clamped.
\<close>

theorem get_top_words_topn_exceeds_vocabulary:
  assumes "dz_T \<noteq> []" "hd dz_T \<noteq> []" "int (length (hd dz_T)) < topn"
    and "argpartition_contract argpartition"
  shows "get_top_words module_np id2word dz_T topn = Inl (NameError ''name 'np' is not defined'') \<and>
         get_top_words (Some (argpartition, argsort)) id2word dz_T topn = Inl ValueError"
proof -
  obtain topic rest where d: "dz_T = topic # rest" using assms(1) by (cases dz_T) auto
  have ne: "topic \<noteq> []" and big: "int (length topic) < topn" using assms(2,3) d by auto
  have "normalize_kth (length topic) (- topn) < 0" using big by (simp add: normalize_kth_def)
  then have "argpartition topic (- topn) = Inl ValueError"
    using argpartition_contract_out_of_bounds[OF assms(4) ne] by blast
  then have "top_words_of_topic (Some (argpartition, argsort)) id2word topic topn = Inl ValueError"
    by (simp add: top_words_of_topic_def)
  then have 2: "get_top_words (Some (argpartition, argsort)) id2word dz_T topn = Inl ValueError"
    by (simp add: get_top_words_def d)
  have 1: "get_top_words module_np id2word dz_T topn = Inl (NameError ''name 'np' is not defined'')"
    using get_top_words_unbound_np[OF assms(1)] by (simp add: module_np_def unbound_np_message)
  show ?thesis using 1 2 by simp
qed

theorem get_top_words_topn_exceeds_vocabulary_witness:
  "get_top_words module_np vocab_abc dz_T_example 4 = Inl (NameError ''name 'np' is not defined'') \<and>
   get_top_words (Some (sorting_argpartition, stable_argsort)) vocab_abc dz_T_example 4
     = Inl ValueError"
proof -
  have h1: "dz_T_example \<noteq> []" and h2: "hd dz_T_example \<noteq> []"
    and h3: "int (length (hd dz_T_example)) < 4"
    by (simp_all add: dz_T_example_def)
  show ?thesis
    by (rule get_top_words_topn_exceeds_vocabulary[OF h1 h2 h3 sorting_argpartition_contract])
qed

subsection \<open>Claims on the corpus scans and the accessor\<close>

text \<open>
  C4 (as the code behaves). \<^verbatim>\<open>term_topic_matrix()\<close> is meant to forward the corpus's cached
  term-topic matrix; the body has no \<^verbatim>\<open>return\<close>, so every call yields \<^verbatim>\<open>None\<close> and the
  matrix never reaches the caller.
\<close>

theorem term_topic_matrix_returns_none:
  "term_topic_matrix [[1, 2], [3, 4 :: int]] = None \<and>
   term_topic_matrix [[1, 2], [3, 4 :: int]] \<noteq> Some [[1, 2], [3, 4]]"
  by (simp add: term_topic_matrix_def)

text \<open>
  C5, the claim as stated fails for the empty corpus: \<^verbatim>\<open>_get_doc_lengths()\<close> raises
  \<^verbatim>\<open>ValueError\<close> there instead of returning a table.
\<close>

theorem get_doc_lengths_empty_counterexample:
  "get_doc_lengths ([] :: (string \<times> string list) list) = Inl ValueError"
  by (simp add: get_doc_lengths_def unpack_zip_star_def)

text \<open>
  C5, amended. For every non-empty corpus, \<^verbatim>\<open>_get_doc_lengths()\<close> pairs each document id,
  in corpus order, with the total number of tokens of the document: the sum of the
  per-term counts of its bag of words, not the number of its distinct terms. Over the
  documents \<open>a a b\<close> and \<open>a c c c\<close>, that is \<open>{a:2, b:1}\<close> and \<open>{a:1, c:3}\<close>, it yields
  \<open>{doc0: 3, doc1: 4}\<close>.
\<close>

theorem get_doc_lengths_token_totals:
  "inner_corpus \<noteq> [] \<Longrightarrow>
     get_doc_lengths inner_corpus
       = Inr (map (\<lambda>(id, tokens). (id, sum_list (map snd (bag_of_words tokens)))) inner_corpus)"
proof -
  assume "inner_corpus \<noteq> []"
  then have "map (\<lambda>(id, doc). (id, length doc)) inner_corpus \<noteq> []" by simp
  then have "get_doc_lengths inner_corpus = Inr (map (\<lambda>(id, doc). (id, length doc)) inner_corpus)"
    unfolding get_doc_lengths_def by (rule unpack_zip_star_rezip)
  then show ?thesis by (simp add: bag_of_words_total)
qed

theorem get_doc_lengths_token_totals_witness:
  "get_doc_lengths [(''doc0'', [''a'', ''a'', ''b'']), (''doc1'', [''a'', ''c'', ''c'', ''c''])]
     = Inr [(''doc0'', 3), (''doc1'', 4)] \<and>
   bag_of_words [''a'', ''a'', ''b''] = [(''a'', 2), (''b'', 1)] \<and>
   bag_of_words [''a'', ''c'', ''c'', ''c''] = [(''a'', 1), (''c'', 3)]"
proof -
  have ne: "[(''doc0'', [''a'', ''a'', ''b'']), (''doc1'', [''a'', ''c'', ''c'', ''c''])] \<noteq> []"
    by simp
  have b0: "bag_of_words [''a'', ''a'', ''b''] = [(''a'', 2), (''b'', 1)]"
    and b1: "bag_of_words [''a'', ''c'', ''c'', ''c''] = [(''a'', 1), (''c'', 3)]"
    by (simp_all add: bag_of_words_def)
  from get_doc_lengths_token_totals[OF ne]
  have "get_doc_lengths [(''doc0'', [''a'', ''a'', ''b'']), (''doc1'', [''a'', ''c'', ''c'', ''c''])]
     = Inr [(''doc0'', 3), (''doc1'', 4)]"
    by (simp add: b0 b1)
  then show ?thesis using b0 b1 by simp
qed

text \<open>
  C6, the claim as stated fails: over the corpus \<open>[{a:2, b:1}, {a:1, c:3}]\<close> the term
  \<open>c\<close> occurs three times, and \<^verbatim>\<open>_get_term_frequency()\<close> yields \<open>{a:3, b:1, c:3}\<close>, not
  \<open>c:4\<close>.
\<close>

theorem get_term_frequency_example_counterexample:
  "get_term_frequency [[(''a'', 2), (''b'', 1)], [(''a'', 1), (''c'', 3)]]
     = [(''a'', 3), (''b'', 1), (''c'', 3)]"
  by code_simp

text \<open>
  C6, amended. For every corpus, \<^verbatim>\<open>_get_term_frequency()\<close> holds, for each term-id that
  occurs in some document, the sum over all documents of the count the document gives
  it, and holds no other term-id.
\<close>

theorem get_term_frequency_totals:
  "map_of (get_term_frequency corpus) k =
     (if k \<in> (\<Union>doc \<in> set corpus. fst ` set doc)
      then Some (\<Sum>doc \<leftarrow> corpus. doc_count doc k) else None)"
proof -
  let ?tf = "fold (\<lambda>doc tf. counter_update tf (py_dict doc)) corpus []"
  have z: "counter_get [] k = 0" by (simp add: counter_get_def)
  have "map_of ?tf k = (if k \<in> fst ` set ?tf then Some (counter_get ?tf k) else None)"
    by (rule map_of_counter_get)
  then show ?thesis
    unfolding get_term_frequency_def
    by (simp only: term_frequency_fold_keys term_frequency_fold_get z) simp
qed

theorem get_term_frequency_totals_witness:
  "map_of (get_term_frequency [[(''a'', 2), (''b'', 1)], [(''a'', 1), (''c'', 3)]]) ''a'' = Some 3 \<and>
   map_of (get_term_frequency [[(''a'', 2), (''b'', 1)], [(''a'', 1), (''c'', 3)]]) ''c'' = Some 3 \<and>
   map_of (get_term_frequency [[(''a'', 2), (''b'', 1)], [(''a'', 1), (''c'', 3)]]) ''d'' = None"
  using get_term_frequency_totals [of "[[(''a'', 2), (''b'', 1)], [(''a'', 1), (''c'', 3)]]" "''a''"]
        get_term_frequency_totals [of "[[(''a'', 2), (''b'', 1)], [(''a'', 1), (''c'', 3)]]" "''c''"]
        get_term_frequency_totals [of "[[(''a'', 2), (''b'', 1)], [(''a'', 1), (''c'', 3)]]" "''d''"]
  by (simp add: doc_count_def)

text \<open>
  C10. For the empty corpus \<^verbatim>\<open>_get_doc_lengths()\<close> raises \<^verbatim>\<open>ValueError\<close> (unpacking the empty
  zipped sequence into two names), and \<^verbatim>\<open>_get_doc_data()\<close> and the visualization transform
  built on it raise as well, whatever the two distribution tables are.
\<close>

theorem get_doc_lengths_empty_corpus_raises:
  "get_doc_lengths ([] :: (label \<times> 'e list) list) = Inl ValueError \<and>
   (\<exists>e. get_doc_data doc_topic_dists ([] :: (label \<times> 'e list) list) = Inl e) \<and>
   (\<exists>e. to_py_lda_vis doc_topic_dists topic_term_dists ([] :: (label \<times> 'e list) list)
          corpus dict_items = Inl e)"
proof -
  have 2: "\<exists>e. get_doc_data doc_topic_dists ([] :: (label \<times> 'e list) list) = Inl e"
    by (cases doc_topic_dists) (simp_all add: get_doc_data_def get_doc_lengths_Nil)
  then obtain e where "get_doc_data doc_topic_dists ([] :: (label \<times> 'e list) list) = Inl e"
    by blast
  then have "to_py_lda_vis doc_topic_dists topic_term_dists ([] :: (label \<times> 'e list) list)
               corpus dict_items = Inl e"
    by (simp add: to_py_lda_vis_def)
  then show ?thesis using 2 by (simp add: get_doc_lengths_Nil)
qed

subsection \<open>Claims on the visualization payload\<close>




subsection \<open>Claims on saving and loading\<close>

text \<open>
  C8 (as the code behaves). The claim promises a not-found error naming the model for a
  name outside the catalog and the reconstructed object for a name in it. The module
  never binds the name \<^verbatim>\<open>Persistor\<close> that \<^verbatim>\<open>load_model\<close> reads, so every call, whatever the
  registry, the location and the model name, raises \<^verbatim>\<open>NameError\<close> for \<^verbatim>\<open>Persistor\<close> and calls no
  constructor.
\<close>

theorem load_model_raises_name_error:
  "load_model module_Persistor registered_models filename model_name
     = (Inl (NameError ''name 'Persistor' is not defined''), [])"
  by (simp add: load_model_def module_Persistor_def unbound_name_error_def)

text \<open>
  C9. When the naming function returns a name, \<^verbatim>\<open>save(filename, saved_data)\<close> stores in
  the persistor, under that name, the record of the concrete type's class name with
  \<open>saved_data\<close> as constructor arguments, adds no other name to the catalog, and saves
  the corpus under \<open>filename\<close>.
\<close>

theorem save_persists_record_and_corpus:
  "model_name_with_parameters self = Inr name \<Longrightarrow>
     \<exists>w'. save self filename saved_data w = Inr w' \<and>
          get_model_details (persisted w') name
            = Inr \<lparr>rec_class = class_name self, rec_saved_data = saved_data\<rparr> \<and>
          list_available_models (persisted w') = insert name (list_available_models (persisted w)) \<and>
          corpus_saved w' = corpus_saved w @ [filename]"
  by (simp add: save_def store_model_def get_model_details_def list_available_models_def Let_def)

theorem save_persists_record_and_corpus_witness:
  "\<exists>w'. save lda_object ''doctest.model'' 3 empty_world = Inr w' \<and>
          get_model_details (persisted w') ''LDA_3_topics''
            = Inr \<lparr>rec_class = ''LDA'', rec_saved_data = 3\<rparr> \<and>
          list_available_models (persisted w') = {''LDA_3_topics''} \<and>
          corpus_saved w' = [''doctest.model'']"
proof -
  have h: "model_name_with_parameters lda_object = Inr ''LDA_3_topics''"
    by (simp add: lda_object_def)
  from save_persists_record_and_corpus[OF h, of "''doctest.model''" 3 empty_world]
  show ?thesis by (simp add: lda_object_def empty_world_def list_available_models_def)
qed

end
